theory Spec2Isabelle
  imports Complex_Main "HOL-Library.Char_ord" "HOL-Library.List_Lexorder"
begin

section \<open>Check\_Format: the Discrete Sample Summary format checker\<close>

text \<open>
  The notebook \<^verbatim>\<open>Check_Format.ipynb\<close> checks a spreadsheet in three steps: the
  column headers, the cells of every column (through a \<^verbatim>\<open>pandas_schema\<close> schema with
  three validators of its own, \<^verbatim>\<open>check_decimal\<close>, \<^verbatim>\<open>check_int\<close> and \<^verbatim>\<open>check_len\<close>),
  and the station metadata, group by group (\<^verbatim>\<open>is_same\<close>). Each cell of the notebook
  is embedded below as a function; what a cell prints is the list it returns.
\<close>

subsection \<open>Column headers\<close>

text \<open>
  The three lines the header loop can print, in the order of the source:
  \<^item> \<open>Moved column k ind\<close>: \<^verbatim>\<open>{column} should be moved from position {k} to {ind}\<close>
  \<^item> \<open>NotAccepted column h\<close>: \<^verbatim>\<open>{column} not an accepted header. Should be '{h}'\<close>
  \<^item> \<open>Delete column\<close>: \<^verbatim>\<open>{column} needs to be deleted.\<close>
\<close>

datatype header_line =
    Moved string nat nat
  | NotAccepted string string
  | Delete string

text \<open>\<^verbatim>\<open>column_headers.index(column)\<close>: the first position holding the value
  (\<open>None\<close> where Python raises \<^verbatim>\<open>ValueError\<close>).\<close>

fun tuple_index :: "'a list \<Rightarrow> 'a \<Rightarrow> nat option" where
  "tuple_index [] v = None"
| "tuple_index (x # xs) v =
     (if x = v then Some 0 else map_option Suc (tuple_index xs v))"

text \<open>
  The body of the loop for one \<open>(k, column)\<close>. Reading \<^verbatim>\<open>column_headers[k]\<close> past the
  end raises \<^verbatim>\<open>IndexError\<close>, which the \<^verbatim>\<open>except\<close> clause turns into the third line.
\<close>

definition header_step :: "string list \<Rightarrow> nat \<Rightarrow> string \<Rightarrow> header_line list" where
  "header_step column_headers k column =
     (if k < length column_headers then
        (if column \<noteq> column_headers ! k then
           (if column \<in> set column_headers then
              (case tuple_index column_headers column of
                 Some ind \<Rightarrow> [Moved column k ind]
               | None \<Rightarrow> [])
            else [NotAccepted column (column_headers ! k)])
         else [])
      else [Delete column])"

text \<open>\<^verbatim>\<open>for k,column in enumerate(summary_sheet.columns)\<close>, from position \<open>k\<close> on.\<close>

fun header_loop :: "string list \<Rightarrow> nat \<Rightarrow> string list \<Rightarrow> header_line list" where
  "header_loop column_headers k [] = []"
| "header_loop column_headers k (column # rest) =
     header_step column_headers k column @ header_loop column_headers (Suc k) rest"

definition check_headers :: "string list \<Rightarrow> string list \<Rightarrow> header_line list" where
  "check_headers column_headers columns = header_loop column_headers 0 columns"

text \<open>The column a printed line is about.\<close>

fun subject :: "header_line \<Rightarrow> string" where
  "subject (Moved c _ _) = c"
| "subject (NotAccepted c _) = c"
| "subject (Delete c) = c"

subsection \<open>Cell values and the Python built-ins the validators call\<close>

text \<open>
  A cell of the data frame is \<^verbatim>\<open>None\<close>, an \<^verbatim>\<open>int\<close>, a \<^verbatim>\<open>float\<close> or a \<^verbatim>\<open>str\<close>. A finite
  float is held as its exact value together with the text \<^verbatim>\<open>repr\<close> gives it (the
  shortest-round-trip printing that links the two is not computed here); \<^verbatim>\<open>nan\<close> and
  the infinities are values of their own. Strings are sequences of ASCII characters.
\<close>

datatype pyfloat = Finite rat string | NaN | PosInf | NegInf

datatype cell = PNone | PInt int | PFloat pyfloat | PStr string

datatype py_error = TypeError | ValueError | OverflowError | InvalidOperation | KeyError

text \<open>\<^verbatim>\<open>str(n)\<close> for an \<^verbatim>\<open>int\<close>: the decimal digits, with a minus sign when negative.\<close>

definition digit_char :: "nat \<Rightarrow> char" where
  "digit_char d = ''0123456789'' ! d"

fun str_nat :: "nat \<Rightarrow> string" where
  "str_nat n = (if n < 10 then [digit_char n] else str_nat (n div 10) @ [digit_char (n mod 10)])"

declare str_nat.simps [simp del]

definition str_int :: "int \<Rightarrow> string" where
  "str_int i = (if i < 0 then CHR ''-'' # str_nat (nat (- i)) else str_nat (nat i))"

text \<open>The interpreter converts between \<^verbatim>\<open>int\<close> and \<^verbatim>\<open>str\<close> up to 4300 digits
  (\<^verbatim>\<open>sys.int_info.default_max_str_digits\<close>) and raises \<^verbatim>\<open>ValueError\<close> beyond.\<close>

definition max_str_digits :: nat where
  "max_str_digits = 4300"

text \<open>The float \<^verbatim>\<open>-9999999.0\<close>, the fill value held as a number.\<close>

definition numeric_fill :: pyfloat where
  "numeric_fill = Finite (- 9999999) ''-9999999.0''"

text \<open>\<^verbatim>\<open>str(value)\<close>.\<close>

fun py_str :: "cell \<Rightarrow> py_error + string" where
  "py_str PNone = Inr ''None''"
| "py_str (PInt i) =
     (if max_str_digits < length (str_nat (nat \<bar>i\<bar>)) then Inl ValueError else Inr (str_int i))"
| "py_str (PFloat (Finite v r)) = Inr r"
| "py_str (PFloat NaN) = Inr ''nan''"
| "py_str (PFloat PosInf) = Inr ''inf''"
| "py_str (PFloat NegInf) = Inr ''-inf''"
| "py_str (PStr s) = Inr s"

text \<open>
  The white space \<^verbatim>\<open>int()\<close> skips at both ends of an ASCII string (\<^verbatim>\<open>Py_ISSPACE\<close>): tab,
  line feed, vertical tab, form feed, carriage return and the space.
\<close>

definition Py_ISSPACE :: "char \<Rightarrow> bool" where
  "Py_ISSPACE c = (c \<in> set [CHR 0x09, CHR 0x0A, CHR 0x0B, CHR 0x0C, CHR 0x0D, CHR 0x20])"

definition skip_space :: "string \<Rightarrow> string" where
  "skip_space s = rev (dropWhile Py_ISSPACE (rev (dropWhile Py_ISSPACE s)))"

definition is_digit :: "char \<Rightarrow> bool" where
  "is_digit c = (c \<in> set ''0123456789'')"

definition digit_val :: "char \<Rightarrow> nat" where
  "digit_val c = of_char c - 48"

text \<open>
  The digits of an integer literal after its first digit: more digits, each possibly
  preceded by one underscore.
\<close>

fun int_digits :: "nat \<Rightarrow> string \<Rightarrow> nat option" where
  "int_digits acc [] = Some acc"
| "int_digits acc [c] = (if is_digit c then Some (10 * acc + digit_val c) else None)"
| "int_digits acc (c # d # ds) =
     (if is_digit c then int_digits (10 * acc + digit_val c) (d # ds)
      else if c = CHR ''_'' \<and> is_digit d then int_digits (10 * acc + digit_val d) ds
      else None)"

text \<open>A literal without sign: it starts with a digit and has at most 4300 digits,
  leading zeros counted.\<close>

definition unsigned_literal :: "string \<Rightarrow> nat option" where
  "unsigned_literal s =
     (case s of
        [] \<Rightarrow> None
      | c # cs \<Rightarrow>
          if is_digit c \<and> length (filter is_digit s) \<le> max_str_digits
          then int_digits (digit_val c) cs else None)"

text \<open>\<^verbatim>\<open>int(s)\<close> for a string, base 10: white space skipped, an optional sign, digits.\<close>

definition int_literal :: "string \<Rightarrow> int option" where
  "int_literal s =
     (case skip_space s of
        [] \<Rightarrow> None
      | c # cs \<Rightarrow>
          if c = CHR ''-'' then map_option (\<lambda>n. - int n) (unsigned_literal cs)
          else if c = CHR ''+'' then map_option int (unsigned_literal cs)
          else map_option int (unsigned_literal (c # cs)))"

text \<open>\<^verbatim>\<open>int(x)\<close> for a float truncates towards zero.\<close>

definition trunc :: "rat \<Rightarrow> int" where
  "trunc v = (if 0 \<le> v then \<lfloor>v\<rfloor> else \<lceil>v\<rceil>)"

text \<open>
  \<^verbatim>\<open>int(num)\<close>: \<^verbatim>\<open>TypeError\<close> for \<^verbatim>\<open>None\<close>, \<^verbatim>\<open>ValueError\<close> for \<^verbatim>\<open>nan\<close> and for a string
  that is no integer literal, \<^verbatim>\<open>OverflowError\<close> for an infinity.
\<close>

fun py_int :: "cell \<Rightarrow> py_error + int" where
  "py_int PNone = Inl TypeError"
| "py_int (PInt i) = Inr i"
| "py_int (PFloat (Finite v r)) = Inr (trunc v)"
| "py_int (PFloat NaN) = Inl ValueError"
| "py_int (PFloat PosInf) = Inl OverflowError"
| "py_int (PFloat NegInf) = Inl OverflowError"
| "py_int (PStr s) = (case int_literal s of Some i \<Rightarrow> Inr i | None \<Rightarrow> Inl ValueError)"

text \<open>
  \<^verbatim>\<open>Decimal(dec)\<close>, whose value the caller drops: \<open>Inr ()\<close> when the constructor returns.
  It takes every \<^verbatim>\<open>int\<close> and every \<^verbatim>\<open>float\<close> (\<^verbatim>\<open>nan\<close> and the infinities too) and raises
  \<^verbatim>\<open>TypeError\<close> for \<^verbatim>\<open>None\<close>. For a string it returns or raises \<^verbatim>\<open>InvalidOperation\<close>;
  which strings the \<^verbatim>\<open>decimal\<close> module reads as numbers is the module's own grammar and
  is a parameter here: \<open>numeric_string s\<close> says that \<^verbatim>\<open>Decimal(s)\<close> returns.
\<close>

fun Decimal :: "(string \<Rightarrow> bool) \<Rightarrow> cell \<Rightarrow> py_error + unit" where
  "Decimal numeric_string PNone = Inl TypeError"
| "Decimal numeric_string (PInt i) = Inr ()"
| "Decimal numeric_string (PFloat f) = Inr ()"
| "Decimal numeric_string (PStr s) =
     (if numeric_string s then Inr () else Inl InvalidOperation)"

subsection \<open>The notebook's element validators\<close>

text \<open>
  \<^verbatim>\<open>try: Decimal(dec)  except InvalidOperation: return False;  return True\<close>.
  Only the named exception is caught; any other one leaves the function.
\<close>

definition check_decimal :: "(string \<Rightarrow> bool) \<Rightarrow> cell \<Rightarrow> py_error + bool" where
  "check_decimal numeric_string dec =
     (case Decimal numeric_string dec of
        Inr _ \<Rightarrow> Inr True
      | Inl e \<Rightarrow> if e = InvalidOperation then Inr False else Inl e)"

text \<open>\<^verbatim>\<open>try: int(num)  except ValueError: return False;  return True\<close>.\<close>

definition check_int :: "cell \<Rightarrow> py_error + bool" where
  "check_int num =
     (case py_int num of
        Inr _ \<Rightarrow> Inr True
      | Inl e \<Rightarrow> if e = ValueError then Inr False else Inl e)"

text \<open>\<^verbatim>\<open>flag = str(flag)\<close>, then the test of \<^verbatim>\<open>len(flag)\<close>. There is no \<^verbatim>\<open>try\<close>: an
  exception of \<^verbatim>\<open>str\<close> leaves the function.\<close>

definition check_len :: "cell \<Rightarrow> py_error + bool" where
  "check_len flag =
     (case py_str flag of
        Inl e \<Rightarrow> Inl e
      | Inr flag \<Rightarrow> Inr (if length flag = 17 \<or> length flag = 8 then True else False))"

subsection \<open>Regular expressions\<close>

text \<open>
  The part of Python's \<^verbatim>\<open>re\<close> syntax the schema's patterns use: a literal character,
  \<^verbatim>\<open>.\<close> (any character but a line feed), \<^verbatim>\<open>\d\<close>, a class \<^verbatim>\<open>[a-b]\<close>, concatenation,
  \<^verbatim>\<open>|\<close>, \<^verbatim>\<open>*\<close>, \<^verbatim>\<open>{n}\<close> and \<^verbatim>\<open>$\<close>. In \<^verbatim>\<open>re\<close> a repetition binds to the single atom
  before it and \<^verbatim>\<open>|\<close> binds weakest, splitting the whole pattern unless parentheses
  confine it.
\<close>

datatype regex =
    Eps
  | Chr char
  | Dot
  | Digit
  | Range char char
  | Cat regex regex
  | Alt regex regex
  | Star regex
  | Rep nat regex
  | Eol

fun rsize :: "regex \<Rightarrow> nat" where
  "rsize (Cat p q) = Suc (rsize p + rsize q)"
| "rsize (Alt p q) = Suc (rsize p + rsize q)"
| "rsize (Star p) = Suc (rsize p)"
| "rsize (Rep n p) = Suc n * Suc (rsize p)"
| "rsize _ = 0"

text \<open>
  \<open>rests r s\<close>: every way \<open>r\<close> can match at the start of \<open>s\<close>, given as what is left of
  \<open>s\<close> after the match. \<^verbatim>\<open>$\<close> matches at the end of the string and just before a line
  feed that ends it. An iteration of \<^verbatim>\<open>*\<close> that consumes nothing adds no new match.
\<close>

function rests :: "regex \<Rightarrow> string \<Rightarrow> string list" where
  "rests Eps s = [s]"
| "rests (Chr c) s = (case s of [] \<Rightarrow> [] | x # xs \<Rightarrow> if x = c then [xs] else [])"
| "rests Dot s = (case s of [] \<Rightarrow> [] | x # xs \<Rightarrow> if x \<noteq> CHR 0x0A then [xs] else [])"
| "rests Digit s = (case s of [] \<Rightarrow> [] | x # xs \<Rightarrow> if is_digit x then [xs] else [])"
| "rests (Range a b) s =
     (case s of [] \<Rightarrow> [] | x # xs \<Rightarrow> if a \<le> x \<and> x \<le> b then [xs] else [])"
| "rests (Cat p q) s = concat (map (rests q) (rests p s))"
| "rests (Alt p q) s = rests p s @ rests q s"
| "rests (Star p) s =
     s # concat (map (rests (Star p)) (filter (\<lambda>t. length t < length s) (rests p s)))"
| "rests (Rep 0 p) s = [s]"
| "rests (Rep (Suc n) p) s = concat (map (rests (Rep n p)) (rests p s))"
| "rests Eol s = (if s = [] \<or> s = [CHR 0x0A] then [s] else [])"
  by pat_completeness auto
termination
  by (relation "measures [\<lambda>(r, s). rsize r, \<lambda>(r, s). length s]") auto

declare rests.simps(8) [simp del]

text \<open>The suffixes of a string, longest first: the places a search can start from.\<close>

fun tails :: "'a list \<Rightarrow> 'a list list" where
  "tails [] = [[]]"
| "tails (x # xs) = (x # xs) # tails xs"

text \<open>\<^verbatim>\<open>re.search\<close>: a match starting anywhere; \<^verbatim>\<open>re.fullmatch\<close>: a match of the whole
  string.\<close>

definition re_search :: "regex \<Rightarrow> string \<Rightarrow> bool" where
  "re_search r s = list_ex (\<lambda>t. rests r t \<noteq> []) (tails s)"

definition re_fullmatch :: "regex \<Rightarrow> string \<Rightarrow> bool" where
  "re_fullmatch r s = ([] \<in> set (rests r s))"

text \<open>A pattern of literal characters only.\<close>

fun lit :: "string \<Rightarrow> regex" where
  "lit [] = Eps"
| "lit [c] = Chr c"
| "lit (c # cs) = Cat (Chr c) (lit cs)"

text \<open>
  What a match is, stated without the search: \<open>match r w t\<close> says that \<open>r\<close> matches the
  text \<open>w\<close> when \<open>t\<close> is what follows \<open>w\<close> in the string (only \<^verbatim>\<open>$\<close> looks at it).
\<close>

inductive match :: "regex \<Rightarrow> string \<Rightarrow> string \<Rightarrow> bool" where
  Eps: "match Eps [] t"
| Chr: "match (Chr c) [c] t"
| Dot: "c \<noteq> CHR 0x0A \<Longrightarrow> match Dot [c] t"
| Digit: "is_digit c \<Longrightarrow> match Digit [c] t"
| Range: "a \<le> c \<Longrightarrow> c \<le> b \<Longrightarrow> match (Range a b) [c] t"
| Cat: "match p u (v @ t) \<Longrightarrow> match q v t \<Longrightarrow> match (Cat p q) (u @ v) t"
| AltL: "match p u t \<Longrightarrow> match (Alt p q) u t"
| AltR: "match q u t \<Longrightarrow> match (Alt p q) u t"
| Star0: "match (Star p) [] t"
| StarS: "match p u (v @ t) \<Longrightarrow> match (Star p) v t \<Longrightarrow> match (Star p) (u @ v) t"
| Rep0: "match (Rep 0 p) [] t"
| RepS: "match p u (v @ t) \<Longrightarrow> match (Rep n p) v t \<Longrightarrow> match (Rep (Suc n) p) (u @ v) t"
| Eol: "t = [] \<or> t = [CHR 0x0A] \<Longrightarrow> match Eol [] t"

subsection \<open>The patterns of the schema\<close>

text \<open>\<^verbatim>\<open>"-9999999"\<close>, the fill value.\<close>

definition fill_pattern :: regex where
  "fill_pattern = lit ''-9999999''"

text \<open>\<^verbatim>\<open>r"\*(0|1){16}"\<close>: a star, then sixteen times (\<^verbatim>\<open>0\<close> or \<^verbatim>\<open>1\<close>).\<close>

definition flag_grouped :: regex where
  "flag_grouped = Cat (Chr (CHR ''*'')) (Rep 16 (Alt (Chr (CHR ''0'')) (Chr (CHR ''1''))))"

text \<open>\<^verbatim>\<open>r"\*0|1{16}"\<close>, as written for Cast Flag and CTD Pressure Flag: without the
  parentheses it reads (a star, then \<^verbatim>\<open>0\<close>) or (sixteen times \<^verbatim>\<open>1\<close>).\<close>

definition flag_ungrouped :: regex where
  "flag_ungrouped = Alt (Cat (Chr (CHR ''*'')) (Chr (CHR ''0''))) (Rep 16 (Chr (CHR ''1'')))"

text \<open>\<^verbatim>\<open>r".*\.hex$"\<close>\<close>

definition hex_pattern :: regex where
  "hex_pattern = Cat (Star Dot) (Cat (lit ''.hex'') Eol)"

text \<open>\<^verbatim>\<open>r"[0-9]{2}/[0-9]{2}$"\<close>\<close>

definition ratio_pattern :: regex where
  "ratio_pattern =
     Cat (Rep 2 (Range (CHR ''0'') (CHR ''9'')))
       (Cat (Chr (CHR ''/'')) (Cat (Rep 2 (Range (CHR ''0'') (CHR ''9''))) Eol))"

text \<open>\<^verbatim>\<open>r"<\d.\d{2}"\<close>\<close>

definition below_detection_pattern :: regex where
  "below_detection_pattern = Cat (Chr (CHR ''<'')) (Cat Digit (Cat Dot (Rep 2 Digit)))"

definition schema_patterns :: "regex list" where
  "schema_patterns =
     [fill_pattern, flag_ungrouped, flag_grouped, hex_pattern, ratio_pattern,
      below_detection_pattern]"

subsection \<open>The validations of pandas\_schema the flag columns use\<close>

text \<open>
  A series is the list of its (index label, value) pairs. The library's validation
  objects, as far as the notebook builds them for the columns below:
  \<^item> \<^verbatim>\<open>CustomElementValidation(f, message)\<close> applies \<open>f\<close> to every element
    (\<^verbatim>\<open>series.apply\<close>), so an exception of \<open>f\<close> leaves \<^verbatim>\<open>validate\<close>;
  \<^item> \<^verbatim>\<open>MatchesPatternValidation(pattern)\<close> is
    \<^verbatim>\<open>series.astype(str).str.contains(pattern)\<close>: every element is rendered by \<^verbatim>\<open>str\<close>
    first, then searched; the
    constructor below holds the pattern as written and as \<^verbatim>\<open>re\<close> reads it;
  \<^item> \<^verbatim>\<open>a | b\<close> evaluates both sides on the whole series and joins them element by
    element.
\<close>

type_synonym 'v series = "(nat \<times> 'v) list"

datatype validation =
    IntValidation
  | LengthValidation
  | MatchesPatternValidation string regex
  | Or validation validation

text \<open>\<^verbatim>\<open>series.apply(f)\<close>: the results in order, or the first exception.\<close>

fun apply_elements :: "('v \<Rightarrow> py_error + 'b) \<Rightarrow> 'v list \<Rightarrow> py_error + 'b list" where
  "apply_elements f [] = Inr []"
| "apply_elements f (x # xs) =
     (case f x of
        Inl e \<Rightarrow> Inl e
      | Inr b \<Rightarrow> (case apply_elements f xs of Inl e \<Rightarrow> Inl e | Inr bs \<Rightarrow> Inr (b # bs)))"

fun validate :: "validation \<Rightarrow> cell list \<Rightarrow> py_error + bool list" where
  "validate IntValidation xs = apply_elements check_int xs"
| "validate LengthValidation xs = apply_elements check_len xs"
| "validate (MatchesPatternValidation text pattern) xs =
     (case apply_elements py_str xs of
        Inl e \<Rightarrow> Inl e
      | Inr strs \<Rightarrow> Inr (map (re_search pattern) strs))"
| "validate (Or a b) xs =
     (case validate a xs of
        Inl e \<Rightarrow> Inl e
      | Inr ra \<Rightarrow>
          (case validate b xs of
             Inl e \<Rightarrow> Inl e
           | Inr rb \<Rightarrow> Inr (map (\<lambda>(x, y). x \<or> y) (zip ra rb))))"

text \<open>
  A \<^verbatim>\<open>ValidationWarning\<close> carries four fields and no other: the message, the offending
  value, the index label of its row and the name of its column.
\<close>

record 'v ValidationWarning =
  message :: string
  wvalue :: 'v
  row :: nat
  column :: string

text \<open>
  \<^verbatim>\<open>get_errors\<close>, given what \<^verbatim>\<open>validate\<close> returned: one warning for every element whose
  result is \<^verbatim>\<open>False\<close>, in the order of the series.
\<close>

definition failures :: "string \<Rightarrow> string \<Rightarrow> 'v series \<Rightarrow> bool list \<Rightarrow> 'v ValidationWarning list" where
  "failures msg name series results =
     map (\<lambda>((i, v), ok). \<lparr>message = msg, wvalue = v, row = i, column = name\<rparr>)
       (filter (\<lambda>((i, v), ok). \<not> ok) (zip series results))"

text \<open>The messages: the notebook's own for its validators, the library's default
  ones for a pattern and for \<^verbatim>\<open>a | b\<close>.\<close>

fun message_of :: "validation \<Rightarrow> string" where
  "message_of IntValidation = ''is not an integer''"
| "message_of LengthValidation = ''is the wrong length''"
| "message_of (MatchesPatternValidation text pattern) =
     ''does not match the pattern '' @ [CHR 0x22] @ text @ [CHR 0x22]"
| "message_of (Or a b) = ''('' @ message_of a @ '') <built-in function or_> ('' @ message_of b @ '')''"

definition get_errors :: "validation \<Rightarrow> string \<Rightarrow> cell series \<Rightarrow> py_error + cell ValidationWarning list" where
  "get_errors v name series =
     (case validate v (map snd series) of
        Inl e \<Rightarrow> Inl e
      | Inr results \<Rightarrow> Inr (failures (message_of v) name series results))"

text \<open>\<^verbatim>\<open>Column.validate\<close>: the warnings of each validation of the column, in order.\<close>

fun column_validate :: "string \<Rightarrow> validation list \<Rightarrow> cell series \<Rightarrow> py_error + cell ValidationWarning list" where
  "column_validate name [] series = Inr []"
| "column_validate name (v # vs) series =
     (case get_errors v name series of
        Inl e \<Rightarrow> Inl e
      | Inr ws \<Rightarrow>
          (case column_validate name vs series of
             Inl e \<Rightarrow> Inl e
           | Inr ws' \<Rightarrow> Inr (ws @ ws')))"

text \<open>The flag columns of the schema, in its order, each with its list of validations.\<close>

definition fill :: validation where
  "fill = MatchesPatternValidation ''-9999999'' fill_pattern"

definition flag_16 :: validation where
  "flag_16 = MatchesPatternValidation (CHR 0x5C # ''*(0|1){16}'') flag_grouped"

definition flag_0_or_1s :: validation where
  "flag_0_or_1s = MatchesPatternValidation (CHR 0x5C # ''*0|1{16}'') flag_ungrouped"

definition grouped_flag :: "validation list" where
  "grouped_flag = [LengthValidation, Or flag_16 fill]"

definition flag_columns :: "(string \<times> validation list) list" where
  "flag_columns =
     [(''Cast Flag'', [LengthValidation, Or flag_0_or_1s fill]),
      (''CTD File Flag'', grouped_flag),
      (''Niskin Flag'', grouped_flag),
      (''CTD Pressure Flag'', [Or flag_0_or_1s fill]),
      (''CTD Temperature 1 Flag'', grouped_flag),
      (''CTD Temperature 2 Flag'', grouped_flag),
      (''CTD Conductivity 1 Flag'', grouped_flag),
      (''CTD Conductivity 2 Flag'', grouped_flag),
      (''CTD Oxygen Flag'', grouped_flag),
      (''CTD Fluorescence Flag'', grouped_flag),
      (''CTD Transmissometer Flag'', grouped_flag),
      (''CTD pH Flag'', [fill]),
      (''Discrete Oxygen Flag'', grouped_flag),
      (''Discrete Oxygen Replicate Flag'', grouped_flag),
      (''Discrete Fluorescence Flag'', grouped_flag),
      (''Discrete Fluorescence Replicate Flag'', grouped_flag),
      (''Discrete Nutrients Flag'', grouped_flag),
      (''Discrete Nutrients Replicate Flag'', grouped_flag),
      (''Discrete Salinity Flag'', grouped_flag),
      (''Discrete Salinity Replicate Flag'', grouped_flag),
      (''Discrete Alkalinity Flag'', grouped_flag),
      (''Discrete Alkalinity Replicate Flag'', grouped_flag),
      (''Discrete DIC Flag'', grouped_flag),
      (''Discrete DIC Replicate Flag'', grouped_flag),
      (''Discrete pCO2 Flag'', grouped_flag),
      (''Discrete pCO2 Replicate Flag'', grouped_flag),
      (''Discrete pH Flag'', grouped_flag),
      (''Discrete pH Replicate Flag'', grouped_flag)]"

subsection \<open>InRangeValidation\<close>



subsection \<open>Metadata: \<^verbatim>\<open>is_same\<close> and the station-by-station loop\<close>

text \<open>
  The cells of a metadata column are of one type with an order (text, or numbers); a
  missing cell (\<^verbatim>\<open>NaN\<close>) is \<open>None\<close> and equals nothing.

  \<^verbatim>\<open>Series.mode()\<close> drops the missing cells, keeps the values that occur most often and
  returns them sorted in ascending order.
\<close>

definition present :: "'a option list \<Rightarrow> 'a list" where
  "present xs = map the (filter (\<lambda>x. x \<noteq> None) xs)"

definition highest_count :: "'a list \<Rightarrow> nat" where
  "highest_count vs = fold max (map (count_list vs) vs) 0"

definition mode :: "'a::linorder option list \<Rightarrow> 'a list" where
  "mode xs =
     (let vs = present xs in
      sort (remdups (filter (\<lambda>v. count_list vs v = highest_count vs) vs)))"

text \<open>\<^verbatim>\<open>series == series.mode()[0]\<close>; label \<^verbatim>\<open>0\<close> of an empty result raises
  \<^verbatim>\<open>KeyError\<close>.\<close>

definition is_same :: "'a::linorder option list \<Rightarrow> py_error + bool list" where
  "is_same series =
     (case mode series of
        [] \<Rightarrow> Inl KeyError
      | m # ms \<Rightarrow> Inr (map (\<lambda>x. x = Some m) series))"

text \<open>\<^verbatim>\<open>IsSameValidation = CustomSeriesValidation(is_same, "is not the same as other rows")\<close>
  and its \<^verbatim>\<open>get_errors\<close>.\<close>

definition IsSameValidation :: "string \<Rightarrow> 'a::linorder option series \<Rightarrow> py_error + 'a option ValidationWarning list" where
  "IsSameValidation name series =
     (case is_same (map snd series) of
        Inl e \<Rightarrow> Inl e
      | Inr results \<Rightarrow> Inr (failures ''is not the same as other rows'' name series results))"

text \<open>A data frame: its rows in order, each with its index label; a row gives the cell
  of every column name.\<close>

type_synonym 'a frame = "(nat \<times> (string \<Rightarrow> 'a option)) list"

text \<open>\<^verbatim>\<open>df[name]\<close>\<close>

definition col :: "string \<Rightarrow> 'a frame \<Rightarrow> 'a option series" where
  "col name df = map (\<lambda>(i, r). (i, r name)) df"

text \<open>\<^verbatim>\<open>df[df[name] == key]\<close>: the rows keep their index labels. A missing value equals
  nothing, itself included, so a missing key selects no row.\<close>

definition select :: "string \<Rightarrow> 'a option \<Rightarrow> 'a frame \<Rightarrow> 'a frame" where
  "select name key df = filter (\<lambda>(i, r). key \<noteq> None \<and> r name = key) df"

text \<open>\<^verbatim>\<open>df[name].unique()\<close>: the distinct values in the order they first appear, the
  missing value among them when the column has one.\<close>

definition unique :: "string \<Rightarrow> 'a frame \<Rightarrow> 'a option list" where
  "unique name df = rev (remdups (rev (map snd (col name df))))"

definition metadata_columns :: "string list" where
  "metadata_columns =
     [''Cruise'', ''Station'', ''Target Asset'', ''Start Latitude [degrees]'',
      ''Start Longitude [degrees]'', ''Start Time [UTC]'', ''Cast'',
      ''Bottom Depth at Start Position [m]'', ''CTD File'']"

text \<open>
  \<^verbatim>\<open>metadata_schema.validate(station_data)\<close>: the schema lists the nine metadata columns,
  each with \<^verbatim>\<open>[IsSameValidation]\<close>; the warnings of all columns are collected in schema
  order and returned sorted by row (\<^verbatim>\<open>sorted\<close> is stable).
\<close>

fun validate_columns :: "string list \<Rightarrow> 'a::linorder frame \<Rightarrow> py_error + 'a option ValidationWarning list" where
  "validate_columns [] df = Inr []"
| "validate_columns (name # names) df =
     (case IsSameValidation name (col name df) of
        Inl e \<Rightarrow> Inl e
      | Inr ws \<Rightarrow>
          (case validate_columns names df of
             Inl e \<Rightarrow> Inl e
           | Inr ws' \<Rightarrow> Inr (ws @ ws')))"

definition metadata_schema_validate :: "'a::linorder frame \<Rightarrow> py_error + 'a option ValidationWarning list" where
  "metadata_schema_validate df =
     (case validate_columns metadata_columns df of
        Inl e \<Rightarrow> Inl e
      | Inr errors \<Rightarrow> Inr (sort_key row errors))"

text \<open>
  The two nested loops. The result is the list of warnings printed, in order, and the
  exception that ended the run, if one did. What is printed is the warning itself
  (\<^verbatim>\<open>print(error)\<close>). A missing Station value is a key like any other: its group is
  empty, and \<^verbatim>\<open>is_same\<close> raises on the empty series.
\<close>

fun station_loop :: "'a::linorder frame \<Rightarrow> 'a option list \<Rightarrow> 'a option ValidationWarning list \<times> py_error option" where
  "station_loop cruise_data [] = ([], None)"
| "station_loop cruise_data (station # rest) =
     (case metadata_schema_validate (select ''Station'' station cruise_data) of
        Inl e \<Rightarrow> ([], Some e)
      | Inr merrors \<Rightarrow>
          (case station_loop cruise_data rest of
             (printed, stop) \<Rightarrow> (merrors @ printed, stop)))"

fun cruise_loop :: "'a::linorder frame \<Rightarrow> 'a option list \<Rightarrow> 'a option ValidationWarning list \<times> py_error option" where
  "cruise_loop metadata [] = ([], None)"
| "cruise_loop metadata (cruise # rest) =
     (let cruise_data = select ''Cruise'' cruise metadata in
      case station_loop cruise_data (unique ''Station'' cruise_data) of
        (printed, Some e) \<Rightarrow> (printed, Some e)
      | (printed, None) \<Rightarrow>
          (case cruise_loop metadata rest of
             (printed', stop) \<Rightarrow> (printed @ printed', stop)))"

definition metadata_check :: "'a::linorder frame \<Rightarrow> 'a option ValidationWarning list \<times> py_error option" where
  "metadata_check metadata = cruise_loop metadata (unique ''Cruise'' metadata)"

text \<open>A row written as the list of its cells in the order of \<open>metadata_columns\<close>, and a
  frame read from such rows with the labels 0, 1, 2, ...\<close>

definition metadata_row :: "'a option list \<Rightarrow> string \<Rightarrow> 'a option" where
  "metadata_row cells name =
     (case tuple_index metadata_columns name of
        Some j \<Rightarrow> if j < length cells then cells ! j else None
      | None \<Rightarrow> None)"

definition metadata_frame :: "'a option list list \<Rightarrow> 'a frame" where
  "metadata_frame rows = zip [0 ..< length rows] (map metadata_row rows)"

section \<open>Properties\<close>

subsection \<open>Column headers\<close>

lemma tuple_index_member:
  "v \<in> set xs \<Longrightarrow> \<exists>i. tuple_index xs v = Some i \<and> i < length xs \<and> xs ! i = v"
  by (induction xs) auto

lemma header_loop_take:
  "n + length cols \<le> length hs \<Longrightarrow> cols = take (length cols) (drop n hs)
     \<Longrightarrow> header_loop hs n cols = []"
proof (induction cols arbitrary: n)
  case Nil
  show ?case by simp
next
  case (Cons c cols)
  have n: "n < length hs" using Cons.prems(1) by simp
  have hd: "c = hs ! n"
    using Cons.prems(2) n by (metis Cons_nth_drop_Suc list.inject take_Suc_Cons length_Cons)
  have tl: "cols = take (length cols) (drop (Suc n) hs)"
    using Cons.prems(2) n by (metis Cons_nth_drop_Suc list.inject take_Suc_Cons length_Cons)
  have "header_loop hs (Suc n) cols = []"
    using Cons.IH [of "Suc n"] Cons.prems(1) tl by simp
  then show ?case using n hd by (simp add: header_step_def)
qed

lemma header_loop_subject:
  "l \<in> set (header_loop hs k cols) \<Longrightarrow> subject l \<in> set cols"
  by (induction cols arbitrary: k)
     (auto simp: header_step_def split: if_splits option.splits)

text \<open>
  C6. With expected headers A, B, C. For the actual headers A, C, B: B has its place at
  position 1 and stands at position 2, C has its place at position 2 and stands at
  position 1, and the loop reports both, each with the position it stands at first
  (\<^verbatim>\<open>C should be moved from position 1 to 2\<close>, \<^verbatim>\<open>B should be moved from position 2 to 1\<close>).
  For A, B, D it reports that D is not an accepted header and should be C; for
  A, B, C, E it reports that E needs to be deleted.
\<close>

theorem header_literal_cases:
  "check_headers [''A'', ''B'', ''C''] [''A'', ''C'', ''B'']
     = [Moved ''C'' 1 2, Moved ''B'' 2 1]
   \<and> tuple_index [''A'', ''B'', ''C''] ''B'' = Some 1
   \<and> tuple_index [''A'', ''C'', ''B''] ''B'' = Some 2
   \<and> tuple_index [''A'', ''B'', ''C''] ''C'' = Some 2
   \<and> tuple_index [''A'', ''C'', ''B''] ''C'' = Some 1
   \<and> check_headers [''A'', ''B'', ''C''] [''A'', ''B'', ''D'']
     = [NotAccepted ''D'' ''C'']
   \<and> check_headers [''A'', ''B'', ''C''] [''A'', ''B'', ''C'', ''E'']
     = [Delete ''E'']"
  by (simp add: check_headers_def header_step_def)

text \<open>
  C8 (as the loop runs it). The loop visits the actual headers only: every line it prints
  is about a header of the actual sequence, and when the actual sequence is a prefix of
  the expected one (some expected columns are missing at the end) it prints nothing.
\<close>

theorem header_missing_not_reported:
  "(\<forall>l \<in> set (check_headers expected actual). subject l \<in> set actual)
   \<and> check_headers expected (take n expected) = []"
proof
  show "\<forall>l \<in> set (check_headers expected actual). subject l \<in> set actual"
    by (simp add: check_headers_def header_loop_subject)
  show "check_headers expected (take n expected) = []"
    unfolding check_headers_def by (rule header_loop_take) (simp_all add: min_def)
qed

theorem header_missing_not_reported_witness:
  "Moved ''C'' 0 2 \<in> set (check_headers [''A'', ''B'', ''C''] [''C'', ''A''])
   \<and> subject (Moved ''C'' 0 2) \<in> set [''C'', ''A'']
   \<and> check_headers [''A'', ''B'', ''C''] (take 2 [''A'', ''B'', ''C'']) = []"
proof -
  have m: "Moved ''C'' 0 2 \<in> set (check_headers [''A'', ''B'', ''C''] [''C'', ''A''])"
    by (simp add: check_headers_def header_step_def)
  from header_missing_not_reported [of "[''A'', ''B'', ''C'']" "[''C'', ''A'']" 2] m
  show ?thesis by blast
qed

text \<open>
  C8 as the claim words it fails: with expected headers A, B, C and actual headers A, B
  the column C is missing and the loop prints no line at all.
\<close>

theorem header_missing_counterexample:
  "check_headers [''A'', ''B'', ''C''] [''A'', ''B''] = []"
  by (simp add: check_headers_def header_step_def)

subsection \<open>The matcher against the definition of a match\<close>

lemma rests_Rep_numeral [simp]:
  "rests (Rep (numeral n) p) s = concat (map (rests (Rep (pred_numeral n) p)) (rests p s))"
  by (simp add: numeral_eq_Suc)

lemma set_rests_Star:
  "set (rests (Star p) s)
     = insert s (\<Union>m \<in> {m \<in> set (rests p s). length m < length s}. set (rests (Star p) m))"
  by (subst rests.simps(8)) auto

lemma rests_sound: "t \<in> set (rests r s) \<Longrightarrow> \<exists>w. s = w @ t \<and> match r w t"
proof (induction r s arbitrary: t rule: rests.induct)
  case (1 s)
  then show ?case by (auto intro: match.Eps)
next
  case (2 c s)
  then show ?case by (cases s) (auto intro: match.Chr split: if_splits)
next
  case (3 s)
  then show ?case by (cases s) (auto intro: match.Dot split: if_splits)
next
  case (4 s)
  then show ?case by (cases s) (auto intro: match.Digit split: if_splits)
next
  case (5 a b s)
  then show ?case by (cases s) (auto intro: match.Range split: if_splits)
next
  case (6 p q s)
  from "6.prems" obtain m where m: "m \<in> set (rests p s)" and t: "t \<in> set (rests q m)"
    by auto
  from "6.IH"(1) [OF m] obtain u where u: "s = u @ m" "match p u m" by blast
  from "6.IH"(2) [OF m t] obtain v where v: "m = v @ t" "match q v t" by blast
  have "s = (u @ v) @ t" using u(1) v(1) by simp
  moreover have "match (Cat p q) (u @ v) t" using u(2) v by (auto intro: match.Cat)
  ultimately show ?case by blast
next
  case (7 p q s)
  from "7.prems" have "t \<in> set (rests p s) \<or> t \<in> set (rests q s)" by simp
  then show ?case using "7.IH" by (blast intro: match.AltL match.AltR)
next
  case (8 p s)
  show ?case
  proof (cases "t = s")
    case True
    have "match (Star p) [] t" by (rule match.Star0)
    then show ?thesis using True by simp
  next
    case False
    with "8.prems" set_rests_Star [of p s]
    obtain m where m: "m \<in> set (rests p s)" "length m < length s"
      and t: "t \<in> set (rests (Star p) m)"
      by blast
    from "8.IH"(1) [OF m(1)] obtain u where u: "s = u @ m" "match p u m" by blast
    have "m \<in> set (filter (\<lambda>t. length t < length s) (rests p s))" using m by simp
    from "8.IH"(2) [OF this t] obtain v where v: "m = v @ t" "match (Star p) v t" by blast
    have "s = (u @ v) @ t" using u(1) v(1) by simp
    moreover have "match (Star p) (u @ v) t" using u(2) v by (auto intro: match.StarS)
    ultimately show ?thesis by blast
  qed
next
  case (9 p s)
  have "match (Rep 0 p) [] t" by (rule match.Rep0)
  then show ?case using "9.prems" by simp
next
  case (10 n p s)
  from "10.prems" obtain m where m: "m \<in> set (rests p s)" and t: "t \<in> set (rests (Rep n p) m)"
    by auto
  from "10.IH"(1) [OF m] obtain u where u: "s = u @ m" "match p u m" by blast
  from "10.IH"(2) [OF m t] obtain v where v: "m = v @ t" "match (Rep n p) v t" by blast
  have "s = (u @ v) @ t" using u(1) v(1) by simp
  moreover have "match (Rep (Suc n) p) (u @ v) t" using u(2) v by (auto intro: match.RepS)
  ultimately show ?case by blast
next
  case (11 s)
  then have "t = s" "s = [] \<or> s = [CHR 0x0A]" by (auto split: if_splits)
  then have "match Eol [] t" by (auto intro: match.Eol)
  then show ?case using \<open>t = s\<close> by simp
qed

lemma rests_complete: "match r w t \<Longrightarrow> t \<in> set (rests r (w @ t))"
proof (induction rule: match.induct)
  case (Eps t)
  show ?case by simp
next
  case (Chr c t)
  show ?case by simp
next
  case (Dot c t)
  then show ?case by simp
next
  case (Digit c t)
  then show ?case by simp
next
  case (Range a c b t)
  then show ?case by simp
next
  case (Cat p u v t q)
  have a: "v @ t \<in> set (rests p (u @ v @ t))" using Cat.IH(1) by simp
  from Cat.IH(2) a have "\<exists>m \<in> set (rests p (u @ v @ t)). t \<in> set (rests q m)"
    by (rule bexI)
  then show ?case by simp
next
  case (AltL p u t q)
  then show ?case by simp
next
  case (AltR q u t p)
  then show ?case by simp
next
  case (Star0 p t)
  show ?case by (subst rests.simps(8)) simp
next
  case (StarS p u v t)
  show ?case
  proof (cases "u = []")
    case True
    then show ?thesis using StarS.IH(2) by simp
  next
    case False
    then have "length (v @ t) < length ((u @ v) @ t)" by simp
    moreover have "v @ t \<in> set (rests p ((u @ v) @ t))" using StarS.IH(1) by simp
    ultimately have m: "v @ t \<in> set (filter (\<lambda>m. length m < length ((u @ v) @ t))
        (rests p ((u @ v) @ t)))"
      by simp
    from StarS.IH(2) m
    have "\<exists>m \<in> set (filter (\<lambda>m. length m < length ((u @ v) @ t)) (rests p ((u @ v) @ t))).
        t \<in> set (rests (Star p) m)"
      by (rule bexI)
    then show ?thesis by (subst rests.simps(8)) simp
  qed
next
  case (Rep0 p t)
  show ?case by simp
next
  case (RepS p u v t n)
  have a: "v @ t \<in> set (rests p (u @ v @ t))" using RepS.IH(1) by simp
  from RepS.IH(2) a have "\<exists>m \<in> set (rests p (u @ v @ t)). t \<in> set (rests (Rep n p) m)"
    by (rule bexI)
  then show ?case by simp
next
  case (Eol t)
  then show ?case by auto
qed

lemma tails_self: "s \<in> set (tails s)"
  by (cases s) simp_all

lemma tails_iff: "t \<in> set (tails s) \<longleftrightarrow> (\<exists>u. s = u @ t)"
  by (induction s) (auto simp: Cons_eq_append_conv tails_self)

inductive_cases match_ChrE: "match (Chr c) w t"
inductive_cases match_CatE: "match (Cat p q) w t"
inductive_cases match_EpsE: "match Eps w t"

lemma match_lit: "match (lit p) w t \<longleftrightarrow> w = p"
proof (induction p arbitrary: w rule: lit.induct)
  case 1
  show ?case by (auto elim: match_EpsE intro: match.Eps)
next
  case (2 c)
  show ?case by (auto elim: match_ChrE intro: match.Chr)
next
  case (3 c d cs)
  show ?case
  proof
    assume "match (lit (c # d # cs)) w t"
    then have "match (Cat (Chr c) (lit (d # cs))) w t" by simp
    then obtain u v where w: "w = u @ v" and u: "match (Chr c) u (v @ t)"
      and v: "match (lit (d # cs)) v t"
      by (rule match_CatE)
    from u have "u = [c]" by (rule match_ChrE) 
    moreover from v have "v = d # cs" using "3.IH" by blast
    ultimately show "w = c # d # cs" using w by simp
  next
    assume w: "w = c # d # cs"
    have "match (Chr c) [c] ((d # cs) @ t)" by (rule match.Chr)
    moreover have "match (lit (d # cs)) (d # cs) t" using "3.IH" by blast
    ultimately have "match (Cat (Chr c) (lit (d # cs))) ([c] @ (d # cs)) t" by (rule match.Cat)
    then show "match (lit (c # d # cs)) w t" using w by simp
  qed
qed

lemma rests_iff: "t \<in> set (rests r s) \<longleftrightarrow> (\<exists>w. s = w @ t \<and> match r w t)"
proof
  assume "t \<in> set (rests r s)"
  then show "\<exists>w. s = w @ t \<and> match r w t" by (rule rests_sound)
next
  assume "\<exists>w. s = w @ t \<and> match r w t"
  then obtain w where "s = w @ t" "match r w t" by blast
  then show "t \<in> set (rests r s)" using rests_complete by simp
qed

lemma re_search_iff: "re_search r s \<longleftrightarrow> (\<exists>u w t. s = u @ w @ t \<and> match r w t)"
proof -
  have "re_search r s \<longleftrightarrow> (\<exists>m \<in> set (tails s). \<exists>t. t \<in> set (rests r m))"
    by (simp add: re_search_def list_ex_iff ex_in_conv)
  also have "\<dots> \<longleftrightarrow> (\<exists>m. (\<exists>u. s = u @ m) \<and> (\<exists>t w. m = w @ t \<and> match r w t))"
    by (simp add: tails_iff rests_iff Bex_def)
  also have "\<dots> \<longleftrightarrow> (\<exists>u w t. s = u @ w @ t \<and> match r w t)"
    by blast
  finally show ?thesis .
qed

lemma re_fullmatch_iff: "re_fullmatch r s \<longleftrightarrow> match r s []"
  by (simp add: re_fullmatch_def rests_iff)

lemma re_search_lit: "re_search (lit p) s \<longleftrightarrow> (\<exists>u t. s = u @ p @ t)"
  by (simp add: re_search_iff match_lit)

subsection \<open>The element validators\<close>

lemma skip_space_3_14: "skip_space ''3.14'' = ''3.14''"
  by (simp add: skip_space_def Py_ISSPACE_def)

lemma int_literal_3_14: "int_literal ''3.14'' = None"
  by (simp add: int_literal_def skip_space_3_14 unsigned_literal_def is_digit_def
      max_str_digits_def)

lemma int_literal_1: "int_literal ''1'' = Some 1"
  by (simp add: int_literal_def skip_space_def Py_ISSPACE_def unsigned_literal_def is_digit_def
      max_str_digits_def digit_val_def)

text \<open>
  C3 fails on the code. \<^verbatim>\<open>check_int\<close> catches \<^verbatim>\<open>ValueError\<close> only and \<^verbatim>\<open>check_decimal\<close>
  catches \<^verbatim>\<open>InvalidOperation\<close> only: on the cell \<^verbatim>\<open>None\<close> both raise \<^verbatim>\<open>TypeError\<close>, and
  on an infinite float \<^verbatim>\<open>check_int\<close> raises \<^verbatim>\<open>OverflowError\<close>. The exception leaves the
  validation of the column: a Station column holding \<^verbatim>\<open>"1"\<close> and \<^verbatim>\<open>None\<close> gives no list
  of warnings.
\<close>

theorem element_validators_raise:
  "check_int PNone = Inl TypeError
   \<and> check_decimal numeric_string PNone = Inl TypeError
   \<and> check_int (PFloat PosInf) = Inl OverflowError
   \<and> column_validate ''Station'' [IntValidation] [(0, PStr ''1''), (1, PNone)] = Inl TypeError"
  by (simp add: check_int_def check_decimal_def get_errors_def int_literal_1)

text \<open>
  C9 (as the code runs it). \<^verbatim>\<open>check_int\<close> passes every finite float, whatever its
  fractional part, since \<^verbatim>\<open>int()\<close> truncates it; the string \<^verbatim>\<open>"3.14"\<close> fails. So the
  number 3.14 passes and the text \<^verbatim>\<open>"3.14"\<close> does not.
\<close>

theorem check_int_finite_float:
  "check_int (PFloat (Finite v r)) = Inr True
   \<and> check_int (PStr ''3.14'') = Inr False"
  by (simp add: check_int_def int_literal_3_14)

text \<open>
  C9 as the claim words it fails: the float \<^verbatim>\<open>nan\<close>, the value of an empty cell, does not
  pass \<^verbatim>\<open>check_int\<close> (\<^verbatim>\<open>int(nan)\<close> raises the \<^verbatim>\<open>ValueError\<close> that is caught).
\<close>

theorem check_int_float_counterexample:
  "check_int (PFloat NaN) = Inr False"
  by (simp add: check_int_def)

subsection \<open>Pattern validators\<close>

lemma fill_search_iff: "re_search fill_pattern s \<longleftrightarrow> (\<exists>u t. s = u @ ''-9999999'' @ t)"
  unfolding fill_pattern_def by (rule re_search_lit)

lemma fill_search_fill: "re_search fill_pattern ''-9999999''"
proof -
  have "''-9999999'' = [] @ ''-9999999'' @ []" by simp
  then show ?thesis unfolding fill_search_iff by blast
qed

lemma fill_search_numeric: "re_search fill_pattern ''-9999999.0''"
proof -
  have "''-9999999.0'' = [] @ ''-9999999'' @ ''.0''" by simp
  then show ?thesis unfolding fill_search_iff by blast
qed

text \<open>
  C1 (as the library runs it). For every pattern and every series whose cells \<^verbatim>\<open>str\<close>
  renders, the pattern validator passes a cell iff some part of the rendering matches
  the pattern: the rendering is \<open>u @ w @ t\<close> with \<open>w\<close> a match (a search, not a match of
  the whole value). In particular the fill-pattern validator passes exactly the cells
  whose rendering contains \<^verbatim>\<open>-9999999\<close>.
\<close>

theorem pattern_validator_searches:
  "validate (MatchesPatternValidation text r) xs
     = map_sum id (map (\<lambda>s. \<exists>u w t. s = u @ w @ t \<and> match r w t)) (apply_elements py_str xs)
   \<and> validate fill xs
     = map_sum id (map (\<lambda>s. \<exists>u t. s = u @ ''-9999999'' @ t)) (apply_elements py_str xs)"
proof
  have a: "re_search r = (\<lambda>s. \<exists>u w t. s = u @ w @ t \<and> match r w t)"
    by (rule ext) (rule re_search_iff)
  show "validate (MatchesPatternValidation text r) xs
     = map_sum id (map (\<lambda>s. \<exists>u w t. s = u @ w @ t \<and> match r w t)) (apply_elements py_str xs)"
    by (cases "apply_elements py_str xs") (simp_all add: a)
  have b: "re_search fill_pattern = (\<lambda>s. \<exists>u t. s = u @ ''-9999999'' @ t)"
    by (rule ext) (rule fill_search_iff)
  show "validate fill xs
     = map_sum id (map (\<lambda>s. \<exists>u t. s = u @ ''-9999999'' @ t)) (apply_elements py_str xs)"
    by (cases "apply_elements py_str xs") (simp_all add: fill_def b)
qed

text \<open>
  C1 as the claim words it fails: the fill-pattern validator passes the value
  \<^verbatim>\<open>x-9999999\<close>, which contains the fill value and is not matched by the pattern as a
  whole.
\<close>

theorem pattern_validator_counterexample:
  "validate fill [PStr ''x-9999999''] = Inr [True]
   \<and> \<not> re_fullmatch fill_pattern ''x-9999999''"
proof
  have "''x-9999999'' = ''x'' @ ''-9999999'' @ []" by simp
  then have "re_search fill_pattern ''x-9999999''" unfolding fill_search_iff by blast
  then show "validate fill [PStr ''x-9999999''] = Inr [True]" by (simp add: fill_def)
  show "\<not> re_fullmatch fill_pattern ''x-9999999''"
    unfolding re_fullmatch_iff fill_pattern_def match_lit by simp
qed

lemma flag_ungrouped_star_zero: "re_search flag_ungrouped (CHR ''*'' # CHR ''0'' # rest)"
  by (simp add: re_search_def flag_ungrouped_def)

lemma flag_grouped_star_zero: "\<not> re_search flag_grouped ''*0''"
  by code_simp

lemma flag_grouped_star_zero_x: "\<not> re_search flag_grouped ''*0xxxxxxxxxxxxxxx''"
  by code_simp

lemma flag_ungrouped_fullmatch: "re_fullmatch flag_ungrouped ''*0''"
  by (simp add: re_fullmatch_def flag_ungrouped_def)

lemma flag_ungrouped_no_fullmatch: "\<not> re_fullmatch flag_ungrouped ''*0000000000000000''"
  by (simp add: re_fullmatch_def flag_ungrouped_def)

text \<open>
  C2 fails on the code. The CTD Pressure Flag column has the one validation
  \<^verbatim>\<open>MatchesPatternValidation(r"\*0|1{16}") | MatchesPatternValidation("-9999999")\<close>, and
  the cell \<^verbatim>\<open>*0\<close> passes it with no warning; the Cast Flag column has the same pattern
  after \<^verbatim>\<open>LengthValidation\<close>, and the 17-character cell \<^verbatim>\<open>*0xxxxxxxxxxxxxxx\<close> passes both.
  The pattern \<^verbatim>\<open>\*(0|1){16}\<close> of the other flag columns finds no match in either cell.
  Read as a match of the whole value the ungrouped pattern is no better: it takes \<^verbatim>\<open>*0\<close>
  and refuses the well-formed flag \<^verbatim>\<open>*0000000000000000\<close>.
\<close>

theorem ungrouped_flag_pattern:
  "map_of flag_columns ''CTD Pressure Flag'' = Some [Or flag_0_or_1s fill]
   \<and> column_validate ''CTD Pressure Flag'' [Or flag_0_or_1s fill] [(i, PStr ''*0'')] = Inr []
   \<and> map_of flag_columns ''Cast Flag'' = Some [LengthValidation, Or flag_0_or_1s fill]
   \<and> column_validate ''Cast Flag'' [LengthValidation, Or flag_0_or_1s fill]
        [(i, PStr ''*0xxxxxxxxxxxxxxx'')] = Inr []
   \<and> \<not> re_search flag_grouped ''*0''
   \<and> \<not> re_search flag_grouped ''*0xxxxxxxxxxxxxxx''
   \<and> re_fullmatch flag_ungrouped ''*0''
   \<and> \<not> re_fullmatch flag_ungrouped ''*0000000000000000''"
proof -
  have a: "map_of flag_columns ''CTD Pressure Flag'' = Some [Or flag_0_or_1s fill]"
    by (simp add: flag_columns_def)
  have b: "column_validate ''CTD Pressure Flag'' [Or flag_0_or_1s fill] [(i, PStr ''*0'')] = Inr []"
    by (simp add: get_errors_def failures_def flag_0_or_1s_def fill_def
        flag_ungrouped_star_zero)
  have c: "map_of flag_columns ''Cast Flag'' = Some [LengthValidation, Or flag_0_or_1s fill]"
    by (simp add: flag_columns_def)
  have d: "column_validate ''Cast Flag'' [LengthValidation, Or flag_0_or_1s fill]
        [(i, PStr ''*0xxxxxxxxxxxxxxx'')] = Inr []"
    by (simp add: get_errors_def failures_def flag_0_or_1s_def fill_def
        flag_ungrouped_star_zero check_len_def)
  from a b c d flag_grouped_star_zero flag_grouped_star_zero_x flag_ungrouped_fullmatch
    flag_ungrouped_no_fullmatch
  show ?thesis by simp
qed

text \<open>
  C10. \<^verbatim>\<open>check_len\<close> passes a value iff its \<^verbatim>\<open>str\<close> rendering has length 8 or 17. The
  fill string \<^verbatim>\<open>"-9999999"\<close> passes; the numeric fill \<^verbatim>\<open>-9999999.0\<close> renders as
  \<^verbatim>\<open>-9999999.0\<close> and fails. In a flag column \<^verbatim>\<open>LengthValidation\<close> is a validation of its
  own, beside the one that offers the fill pattern as an alternative: the fill string
  gets no warning, and the numeric fill gets the length warning although its rendering
  contains the fill value.
\<close>

theorem check_len_rendering:
  "check_len v = map_sum id (\<lambda>s. length s = 8 \<or> length s = 17) (py_str v)
   \<and> check_len (PStr ''-9999999'') = Inr True
   \<and> py_str (PFloat numeric_fill) = Inr ''-9999999.0''
   \<and> check_len (PFloat numeric_fill) = Inr False
   \<and> grouped_flag = [LengthValidation, Or flag_16 fill]
   \<and> column_validate name grouped_flag [(i, PStr ''-9999999'')] = Inr []
   \<and> column_validate name grouped_flag [(i, PFloat numeric_fill)]
       = Inr [\<lparr>message = ''is the wrong length'', wvalue = PFloat numeric_fill,
               row = i, column = name\<rparr>]"
proof -
  have a: "check_len v = map_sum id (\<lambda>s. length s = 8 \<or> length s = 17) (py_str v)"
    by (cases "py_str v") (auto simp: check_len_def)
  have b: "check_len (PStr ''-9999999'') = Inr True"
    by (simp add: check_len_def)
  have r: "py_str (PFloat numeric_fill) = Inr ''-9999999.0''"
    by (simp add: numeric_fill_def)
  have c: "check_len (PFloat numeric_fill) = Inr False"
    by (simp add: check_len_def r)
  have d: "column_validate name grouped_flag [(i, PStr ''-9999999'')] = Inr []"
    by (simp add: grouped_flag_def get_errors_def failures_def b fill_def flag_16_def
        fill_search_fill)
  have e: "column_validate name grouped_flag [(i, PFloat numeric_fill)]
       = Inr [\<lparr>message = ''is the wrong length'', wvalue = PFloat numeric_fill,
               row = i, column = name\<rparr>]"
    by (simp add: grouped_flag_def get_errors_def failures_def c r fill_def flag_16_def
        fill_search_numeric)
  from a b r c d e show ?thesis by (simp add: grouped_flag_def)
qed

subsection \<open>The range validator\<close>



subsection \<open>The mode of a column\<close>

lemma highest_count_Max: "highest_count vs = Max (set (0 # map (count_list vs) vs))"
  unfolding highest_count_def by (rule Max.set_eq_fold [symmetric])

lemma highest_count_ge: "v \<in> set vs \<Longrightarrow> count_list vs v \<le> highest_count vs"
  unfolding highest_count_Max by (rule Max_ge) auto

lemma highest_count_attained:
  assumes "vs \<noteq> []"
  shows "\<exists>v \<in> set vs. count_list vs v = highest_count vs"
proof -
  have "Max (set (0 # map (count_list vs) vs)) \<in> set (0 # map (count_list vs) vs)"
    by (rule Max_in) auto
  then have "highest_count vs = 0 \<or> highest_count vs \<in> count_list vs ` set vs"
    unfolding highest_count_Max by auto
  moreover have "highest_count vs \<noteq> 0"
  proof -
    from assms obtain x where x: "x \<in> set vs" by (cases vs) auto
    then have "count_list vs x \<noteq> 0" using count_list_0_iff [of vs x] by simp
    with highest_count_ge [OF x] show ?thesis by simp
  qed
  ultimately show ?thesis by auto
qed

lemma hd_sort_remdups:
  assumes "xs \<noteq> []"
  shows "hd (sort (remdups xs)) = Min (set xs)"
proof -
  let ?ys = "sort (remdups xs)"
  have ne: "?ys \<noteq> []" using assms by (metis set_empty set_remdups set_sort)
  then obtain y ys where ys: "?ys = y # ys" by (cases ?ys) auto
  have "sorted ?ys" by simp
  then have "\<forall>z \<in> set ys. y \<le> z" unfolding ys by simp
  moreover have s: "set xs = insert y (set ys)"
  proof -
    have "set ?ys = set xs" by simp
    then show ?thesis unfolding ys by simp
  qed
  ultimately have "Min (set xs) = y"
    by (intro Min_eqI) auto
  then show ?thesis by (simp add: ys)
qed


lemma mode_nonempty:
  assumes "present series \<noteq> []"
  shows "mode series \<noteq> []"
proof -
  let ?vs = "present series"
  from highest_count_attained [OF assms]
  have "filter (\<lambda>v. count_list ?vs v = highest_count ?vs) ?vs \<noteq> []"
    by (simp add: filter_empty_conv)
  then show ?thesis
    unfolding mode_def Let_def by (metis set_empty set_remdups set_sort)
qed

lemma hd_mode:
  assumes "present series \<noteq> []"
  shows "hd (mode series)
    = Min {v \<in> set (present series).
            count_list (present series) v = highest_count (present series)}"
proof -
  let ?vs = "present series"
  let ?f = "filter (\<lambda>v. count_list ?vs v = highest_count ?vs) ?vs"
  from highest_count_attained [OF assms] have "?f \<noteq> []"
    by (simp add: filter_empty_conv)
  then have "hd (sort (remdups ?f)) = Min (set ?f)" by (rule hd_sort_remdups)
  then show ?thesis unfolding mode_def Let_def by simp
qed

text \<open>
  C4 (as pandas runs it). For a column with at least one value present, \<^verbatim>\<open>is_same\<close>
  returns, and the value \<open>m\<close> every row is compared with is a most frequent value of the
  column and is the least of the most frequent values (\<^verbatim>\<open>mode()\<close> returns them sorted);
  each row passes iff its value equals \<open>m\<close>.
\<close>

theorem is_same_least_mode:
  assumes "present series \<noteq> []"
  shows "\<exists>m. is_same series = Inr (map (\<lambda>x. x = Some m) series)
    \<and> m \<in> set (present series)
    \<and> (\<forall>w \<in> set (present series).
          count_list (present series) w \<le> count_list (present series) m)
    \<and> (\<forall>w \<in> set (present series).
          count_list (present series) w = count_list (present series) m \<longrightarrow> m \<le> w)"
proof -
  let ?vs = "present series"
  let ?M = "{v \<in> set ?vs. count_list ?vs v = highest_count ?vs}"
  let ?m = "Min ?M"
  have fin: "finite ?M" by simp
  have ne: "?M \<noteq> {}" using highest_count_attained [OF assms] by auto
  have mM: "?m \<in> ?M" using fin ne by (rule Min_in)
  then have m_in: "?m \<in> set ?vs" and m_count: "count_list ?vs ?m = highest_count ?vs"
    by auto
  obtain ms where ms: "mode series = hd (mode series) # ms"
    using mode_nonempty [OF assms] by (cases "mode series") auto
  have "hd (mode series) = ?m" using assms by (rule hd_mode)
  with ms have "mode series = ?m # ms" by simp
  then have a: "is_same series = Inr (map (\<lambda>x. x = Some ?m) series)"
    by (simp add: is_same_def)
  have b: "\<forall>w \<in> set ?vs. count_list ?vs w \<le> count_list ?vs ?m"
    using highest_count_ge m_count by auto
  have c: "\<forall>w \<in> set ?vs. count_list ?vs w = count_list ?vs ?m \<longrightarrow> ?m \<le> w"
  proof (intro ballI impI)
    fix w assume "w \<in> set ?vs" "count_list ?vs w = count_list ?vs ?m"
    then have "w \<in> ?M" using m_count by simp
    with fin show "?m \<le> w" by (rule Min_le)
  qed
  from a m_in b c show ?thesis by blast
qed

lemma present_2_1: "present [Some (2::int), Some 1] = [2, 1]"
  by (simp add: present_def)

lemma is_same_2_1: "is_same [Some (2::int), Some 1] = Inr [False, True]"
  by (simp add: is_same_def mode_def present_2_1 highest_count_def)

theorem is_same_least_mode_witness:
  "present [Some (2::int), Some 1] \<noteq> []
   \<and> (\<exists>m. is_same [Some (2::int), Some 1] = Inr (map (\<lambda>x. x = Some m) [Some 2, Some 1])
        \<and> m \<in> set (present [Some (2::int), Some 1]))"
proof -
  have ne: "present [Some (2::int), Some 1] \<noteq> []" by (simp add: present_2_1)
  from is_same_least_mode [OF ne] ne show ?thesis by blast
qed

text \<open>
  C4 as the claim words it fails: in the column 2, 1 both values occur once; the tied
  value at the lowest row index is 2 (row 0), yet row 0 fails and row 1 passes, since the
  value chosen is the smaller one, 1.
\<close>

theorem is_same_tie_counterexample:
  "is_same [Some (2::int), Some 1] = Inr [False, True]"
  by (rule is_same_2_1)

subsection \<open>The station-by-station loop\<close>

lemma failures_set:
  assumes "w \<in> set (failures msg name series results)"
  shows "message w = msg \<and> column w = name \<and> (row w, wvalue w) \<in> set series"
proof -
  from assms obtain i v ok where "((i, v), ok) \<in> set (zip series results)"
    and w: "w = \<lparr>message = msg, wvalue = v, row = i, column = name\<rparr>"
    unfolding failures_def by auto
  then have "(i, v) \<in> set series" by (meson set_zip_leftD)
  with w show ?thesis by simp
qed

lemma IsSameValidation_set:
  assumes "IsSameValidation name series = Inr ws" and "w \<in> set ws"
  shows "message w = ''is not the same as other rows'' \<and> column w = name
    \<and> (row w, wvalue w) \<in> set series"
proof -
  from assms(1) obtain results
    where "ws = failures ''is not the same as other rows'' name series results"
    unfolding IsSameValidation_def by (auto split: sum.splits)
  with assms(2) show ?thesis using failures_set by blast
qed

lemma col_set: "(i, v) \<in> set (col name df) \<Longrightarrow> \<exists>r. (i, r) \<in> set df \<and> v = r name"
  unfolding col_def by auto

lemma validate_columns_set:
  "validate_columns names df = Inr ws \<Longrightarrow> w \<in> set ws \<Longrightarrow>
     message w = ''is not the same as other rows'' \<and> column w \<in> set names
     \<and> (\<exists>r. (row w, r) \<in> set df \<and> wvalue w = r (column w))"
proof (induction names arbitrary: ws)
  case Nil
  then show ?case by simp
next
  case (Cons name names)
  from Cons.prems(1) obtain ws1 ws2 where 1: "IsSameValidation name (col name df) = Inr ws1"
    and 2: "validate_columns names df = Inr ws2" and ws: "ws = ws1 @ ws2"
    by (auto split: sum.splits)
  from Cons.prems(2) ws consider "w \<in> set ws1" | "w \<in> set ws2" by auto
  then show ?case
  proof cases
    case 1
    from IsSameValidation_set [OF \<open>IsSameValidation name (col name df) = Inr ws1\<close> 1]
    have m: "message w = ''is not the same as other rows''" and c: "column w = name"
      and s: "(row w, wvalue w) \<in> set (col name df)"
      by auto
    from col_set [OF s] obtain r where "(row w, r) \<in> set df" "wvalue w = r name" by blast
    with m c show ?thesis by auto
  next
    case 2
    from Cons.IH [OF \<open>validate_columns names df = Inr ws2\<close> 2] show ?thesis by auto
  qed
qed

lemma metadata_schema_validate_set:
  assumes "metadata_schema_validate df = Inr ws" and "w \<in> set ws"
  shows "message w = ''is not the same as other rows'' \<and> column w \<in> set metadata_columns
     \<and> (\<exists>r. (row w, r) \<in> set df \<and> wvalue w = r (column w))"
proof -
  from assms(1) obtain errors where e: "validate_columns metadata_columns df = Inr errors"
    and ws: "ws = sort_key row errors"
    unfolding metadata_schema_validate_def by (auto split: sum.splits)
  from assms(2) ws have "w \<in> set errors" by simp
  with e show ?thesis by (rule validate_columns_set)
qed

lemma select_set:
  "(i, r) \<in> set (select name key df) \<Longrightarrow> (i, r) \<in> set df \<and> r name = key \<and> r name \<noteq> None"
  unfolding select_def by auto

lemma station_loop_set:
  "w \<in> set (fst (station_loop cruise_data stations)) \<Longrightarrow>
     message w = ''is not the same as other rows'' \<and> column w \<in> set metadata_columns
     \<and> (\<exists>r. (row w, r) \<in> set cruise_data \<and> wvalue w = r (column w)
            \<and> r ''Station'' \<noteq> None)"
proof (induction stations)
  case Nil
  then show ?case by simp
next
  case (Cons station rest)
  let ?df = "select ''Station'' station cruise_data"
  show ?case
  proof (cases "metadata_schema_validate ?df")
    case (Inl e)
    with Cons.prems show ?thesis by simp
  next
    case (Inr merrors)
    obtain printed stop where rest: "station_loop cruise_data rest = (printed, stop)"
      by (cases "station_loop cruise_data rest")
    with Inr Cons.prems consider "w \<in> set merrors" | "w \<in> set printed" by auto
    then show ?thesis
    proof cases
      case 1
      from metadata_schema_validate_set [OF Inr 1] obtain r
        where m: "message w = ''is not the same as other rows''"
          and c: "column w \<in> set metadata_columns"
          and r: "(row w, r) \<in> set ?df" "wvalue w = r (column w)"
        by blast
      from select_set [OF r(1)] have "(row w, r) \<in> set cruise_data" "r ''Station'' \<noteq> None"
        by auto
      with m c r(2) show ?thesis by blast
    next
      case 2
      then have "w \<in> set (fst (station_loop cruise_data rest))" using rest by simp
      then show ?thesis by (rule Cons.IH)
    qed
  qed
qed

lemma cruise_loop_set:
  "w \<in> set (fst (cruise_loop metadata cruises)) \<Longrightarrow>
     message w = ''is not the same as other rows'' \<and> column w \<in> set metadata_columns
     \<and> (\<exists>r. (row w, r) \<in> set metadata \<and> wvalue w = r (column w)
            \<and> r ''Cruise'' \<noteq> None \<and> r ''Station'' \<noteq> None)"
proof (induction cruises)
  case Nil
  then show ?case by simp
next
  case (Cons cruise rest)
  let ?cd = "select ''Cruise'' cruise metadata"
  obtain printed stop where st: "station_loop ?cd (unique ''Station'' ?cd) = (printed, stop)"
    by (cases "station_loop ?cd (unique ''Station'' ?cd)")
  obtain printed' stop' where cr: "cruise_loop metadata rest = (printed', stop')"
    by (cases "cruise_loop metadata rest")
  from Cons.prems st cr consider "w \<in> set printed" | "w \<in> set printed'"
    by (cases stop) (auto simp: Let_def)
  then show ?case
  proof cases
    case 1
    then have "w \<in> set (fst (station_loop ?cd (unique ''Station'' ?cd)))" using st by simp
    from station_loop_set [OF this] obtain r
      where m: "message w = ''is not the same as other rows''"
        and c: "column w \<in> set metadata_columns"
        and r: "(row w, r) \<in> set ?cd" "wvalue w = r (column w)" "r ''Station'' \<noteq> None"
      by blast
    from select_set [OF r(1)] have "(row w, r) \<in> set metadata" "r ''Cruise'' \<noteq> None"
      by auto
    with m c r(2,3) show ?thesis by blast
  next
    case 2
    then have "w \<in> set (fst (cruise_loop metadata rest))" using cr by simp
    then show ?thesis by (rule Cons.IH)
  qed
qed


text \<open>
  C7 (as the loop runs it). Every warning the grouped validation prints is the library's
  warning with its four fields and nothing more: the message of \<^verbatim>\<open>IsSameValidation\<close>, the
  name of a metadata column, the index label a row has in the whole table and that row's
  value in the column. The row belongs to a group (its Cruise and Station are present),
  but the warning carries no key of the group.
\<close>

theorem metadata_check_warnings:
  assumes "w \<in> set (fst (metadata_check metadata))"
  shows "w = \<lparr>message = ''is not the same as other rows'', wvalue = wvalue w, row = row w,
               column = column w\<rparr>
    \<and> column w \<in> set metadata_columns
    \<and> (\<exists>r. (row w, r) \<in> set metadata \<and> wvalue w = r (column w)
           \<and> r ''Cruise'' \<noteq> None \<and> r ''Station'' \<noteq> None)"
proof -
  from assms have "w \<in> set (fst (cruise_loop metadata (unique ''Cruise'' metadata)))"
    by (simp add: metadata_check_def)
  from cruise_loop_set [OF this] show ?thesis by simp
qed

lemma metadata_check_AR1:
  "fst (metadata_check (metadata_frame
     [map Some [''AR1'', ''1'', ''X'', ''50'', ''-145'', ''t'', ''1'', ''4200'', ''f.hex''],
      map Some [''AR1'', ''1'', ''X'', ''50'', ''-145'', ''t'', ''1'', ''4200'', ''f.hex''],
      map Some [''AR1'', ''1'', ''Y'', ''50'', ''-145'', ''t'', ''1'', ''4200'', ''f.hex'']]))
   = [\<lparr>message = ''is not the same as other rows'', wvalue = Some ''Y'', row = 2,
        column = ''Target Asset''\<rparr>]"
  by code_simp

lemma metadata_check_AR2:
  "fst (metadata_check (metadata_frame
     [map Some [''AR2'', ''1'', ''X'', ''50'', ''-145'', ''t'', ''1'', ''4200'', ''f.hex''],
      map Some [''AR2'', ''1'', ''X'', ''50'', ''-145'', ''t'', ''1'', ''4200'', ''f.hex''],
      map Some [''AR2'', ''1'', ''Y'', ''50'', ''-145'', ''t'', ''1'', ''4200'', ''f.hex'']]))
   = [\<lparr>message = ''is not the same as other rows'', wvalue = Some ''Y'', row = 2,
        column = ''Target Asset''\<rparr>]"
  by code_simp

lemma unique_AR1:
  "unique ''Cruise'' (metadata_frame
     [map Some [''AR1'', ''1'', ''X'', ''50'', ''-145'', ''t'', ''1'', ''4200'', ''f.hex''],
      map Some [''AR1'', ''1'', ''X'', ''50'', ''-145'', ''t'', ''1'', ''4200'', ''f.hex''],
      map Some [''AR1'', ''1'', ''Y'', ''50'', ''-145'', ''t'', ''1'', ''4200'', ''f.hex'']])
   = [Some ''AR1'']"
  by code_simp

lemma unique_AR2:
  "unique ''Cruise'' (metadata_frame
     [map Some [''AR2'', ''1'', ''X'', ''50'', ''-145'', ''t'', ''1'', ''4200'', ''f.hex''],
      map Some [''AR2'', ''1'', ''X'', ''50'', ''-145'', ''t'', ''1'', ''4200'', ''f.hex''],
      map Some [''AR2'', ''1'', ''Y'', ''50'', ''-145'', ''t'', ''1'', ''4200'', ''f.hex'']])
   = [Some ''AR2'']"
  by code_simp

theorem metadata_check_warnings_witness:
  "\<lparr>message = ''is not the same as other rows'', wvalue = Some ''Y'', row = 2,
      column = ''Target Asset''\<rparr>
     \<in> set (fst (metadata_check (metadata_frame
     [map Some [''AR1'', ''1'', ''X'', ''50'', ''-145'', ''t'', ''1'', ''4200'', ''f.hex''],
      map Some [''AR1'', ''1'', ''X'', ''50'', ''-145'', ''t'', ''1'', ''4200'', ''f.hex''],
      map Some [''AR1'', ''1'', ''Y'', ''50'', ''-145'', ''t'', ''1'', ''4200'', ''f.hex'']])))
   \<and> ''Target Asset'' \<in> set metadata_columns"
proof -
  let ?w = "\<lparr>message = ''is not the same as other rows'', wvalue = Some ''Y'', row = 2,
      column = ''Target Asset''\<rparr>"
  let ?df = "metadata_frame
     [map Some [''AR1'', ''1'', ''X'', ''50'', ''-145'', ''t'', ''1'', ''4200'', ''f.hex''],
      map Some [''AR1'', ''1'', ''X'', ''50'', ''-145'', ''t'', ''1'', ''4200'', ''f.hex''],
      map Some [''AR1'', ''1'', ''Y'', ''50'', ''-145'', ''t'', ''1'', ''4200'', ''f.hex'']]"
  have m: "?w \<in> set (fst (metadata_check ?df))" unfolding metadata_check_AR1 by simp
  from metadata_check_warnings [OF m] have "column ?w \<in> set metadata_columns" by blast
  then have "''Target Asset'' \<in> set metadata_columns" by simp
  with m show ?thesis by blast
qed

text \<open>
  C7 as the claim words it fails: two tables that differ only in the cruise (AR1 in one,
  AR2 in the other) print the same single warning; nothing in it tells the groups apart.
\<close>

theorem metadata_check_counterexample:
  "fst (metadata_check (metadata_frame
     [map Some [''AR1'', ''1'', ''X'', ''50'', ''-145'', ''t'', ''1'', ''4200'', ''f.hex''],
      map Some [''AR1'', ''1'', ''X'', ''50'', ''-145'', ''t'', ''1'', ''4200'', ''f.hex''],
      map Some [''AR1'', ''1'', ''Y'', ''50'', ''-145'', ''t'', ''1'', ''4200'', ''f.hex'']]))
   = [\<lparr>message = ''is not the same as other rows'', wvalue = Some ''Y'', row = 2,
        column = ''Target Asset''\<rparr>]
   \<and> fst (metadata_check (metadata_frame
     [map Some [''AR2'', ''1'', ''X'', ''50'', ''-145'', ''t'', ''1'', ''4200'', ''f.hex''],
      map Some [''AR2'', ''1'', ''X'', ''50'', ''-145'', ''t'', ''1'', ''4200'', ''f.hex''],
      map Some [''AR2'', ''1'', ''Y'', ''50'', ''-145'', ''t'', ''1'', ''4200'', ''f.hex'']]))
   = [\<lparr>message = ''is not the same as other rows'', wvalue = Some ''Y'', row = 2,
        column = ''Target Asset''\<rparr>]
   \<and> unique ''Cruise'' (metadata_frame
     [map Some [''AR1'', ''1'', ''X'', ''50'', ''-145'', ''t'', ''1'', ''4200'', ''f.hex''],
      map Some [''AR1'', ''1'', ''X'', ''50'', ''-145'', ''t'', ''1'', ''4200'', ''f.hex''],
      map Some [''AR1'', ''1'', ''Y'', ''50'', ''-145'', ''t'', ''1'', ''4200'', ''f.hex'']])
   = [Some ''AR1'']
   \<and> unique ''Cruise'' (metadata_frame
     [map Some [''AR2'', ''1'', ''X'', ''50'', ''-145'', ''t'', ''1'', ''4200'', ''f.hex''],
      map Some [''AR2'', ''1'', ''X'', ''50'', ''-145'', ''t'', ''1'', ''4200'', ''f.hex''],
      map Some [''AR2'', ''1'', ''Y'', ''50'', ''-145'', ''t'', ''1'', ''4200'', ''f.hex'']])
   = [Some ''AR2'']"
  using metadata_check_AR1 metadata_check_AR2 unique_AR1 unique_AR2 by (intro conjI)

end
